theory Spec2Isabelle
  imports Main
begin

section \<open>Pixels and surfaces\<close>

text \<open>
  The drawing session of \<^verbatim>\<open>script.js\<close> keeps one canvas per layer. A canvas is
  modelled by its pixel content: a row-major list of RGBA pixels, \<open>width * height\<close> of
  them. The canvas size is the constant \<^verbatim>\<open>CONFIG\<close> of the script; every operation
  below takes it as a parameter, so that small canvases can be evaluated.
\<close>

record config =
  width :: nat
  height :: nat

definition CONFIG :: config where
  "CONFIG = \<lparr>width = 540, height = 540\<rparr>"

record pixel =
  red :: nat
  green :: nat
  blue :: nat
  alpha :: nat

type_synonym surface = "pixel list"

definition white :: pixel where
  "white = \<lparr>red = 255, green = 255, blue = 255, alpha = 255\<rparr>"

definition transparent :: pixel where
  "transparent = \<lparr>red = 0, green = 0, blue = 0, alpha = 0\<rparr>"

text \<open>A fresh canvas is transparent black; \<^verbatim>\<open>clearRect\<close> over the whole canvas gives the same.\<close>

definition createCanvas :: "config \<Rightarrow> surface" where
  "createCanvas cfg = replicate (width cfg * height cfg) transparent"

definition clearRect :: "config \<Rightarrow> surface \<Rightarrow> surface" where
  "clearRect cfg c = replicate (width cfg * height cfg) transparent"

text \<open>\<^verbatim>\<open>fillStyle = '#ffffff'; fillRect(0, 0, width, height)\<close>.\<close>

definition fillRect_white :: "config \<Rightarrow> surface \<Rightarrow> surface" where
  "fillRect_white cfg c = replicate (width cfg * height cfg) white"

text \<open>Reading outside a canvas yields nothing, that is transparent black.\<close>

definition pixel_at :: "surface \<Rightarrow> nat \<Rightarrow> pixel" where
  "pixel_at c k = (if k < length c then c ! k else transparent)"

definition canvas_pixel :: "config \<Rightarrow> surface \<Rightarrow> nat \<Rightarrow> nat \<Rightarrow> pixel" where
  "canvas_pixel cfg c x y =
     (if x < width cfg \<and> y < height cfg then pixel_at c (y * width cfg + x) else transparent)"

text \<open>
  The blending of \<^verbatim>\<open>drawImage\<close> under the default composite operation
  \<^verbatim>\<open>source-over\<close>: a fully transparent source pixel leaves the destination as it is,
  a fully opaque one replaces it, and in between the channels are mixed by the source's
  alpha (rounded down here; browsers differ in the rounding, and no result below depends
  on it).
\<close>

definition source_over :: "pixel \<Rightarrow> pixel \<Rightarrow> pixel" where
  "source_over s d =
     (if alpha s = 0 then d
      else if 255 \<le> alpha s then s
      else let sa = alpha s; da = alpha d; oa = sa + da * (255 - sa) div 255
           in \<lparr>red = (red s * sa * 255 + red d * da * (255 - sa)) div (oa * 255),
               green = (green s * sa * 255 + green d * da * (255 - sa)) div (oa * 255),
               blue = (blue s * sa * 255 + blue d * da * (255 - sa)) div (oa * 255),
               alpha = oa\<rparr>)"

text \<open>\<^verbatim>\<open>ctx.drawImage(src, 0, 0)\<close> onto a canvas of the configured size.\<close>

definition drawImage :: "config \<Rightarrow> surface \<Rightarrow> surface \<Rightarrow> surface" where
  "drawImage cfg dst src =
     map (\<lambda>k. source_over (pixel_at src k) (pixel_at dst k)) [0..<width cfg * height cfg]"

text \<open>
  \<^verbatim>\<open>canvas.toDataURL()\<close> encodes the pixel content losslessly; a data URL read from a
  project file may also fail to decode, in which case the image's \<^verbatim>\<open>onload\<close> handler
  never runs.
\<close>

datatype data_url = ImageURL surface | BadURL

definition toDataURL :: "surface \<Rightarrow> data_url" where
  "toDataURL c = ImageURL c"

fun decode :: "data_url \<Rightarrow> surface option" where
  "decode (ImageURL c) = Some c"
| "decode BadURL = None"

section \<open>The session state\<close>

record layer =
  l_id :: int
  l_canvas :: surface
  l_visible :: bool
  l_name :: string

record entry =
  layerId :: int
  dataURL :: data_url

datatype tool = Pen | Eraser | Pipette

text \<open>
  The fields of \<^verbatim>\<open>state\<close> that the layer stack, the history, the pipette and the
  project files read or write. The stroke fields (\<^verbatim>\<open>isDrawing\<close>, \<^verbatim>\<open>size\<close>,
  \<^verbatim>\<open>shape\<close>, \<^verbatim>\<open>zoom\<close>, \<^verbatim>\<open>lastX\<close>, \<^verbatim>\<open>lastY\<close>) are left out.
  \<^verbatim>\<open>activeLayerId\<close> starts as \<^verbatim>\<open>null\<close>, which is \<open>None\<close>.
\<close>

record state =
  currentTool :: tool
  color :: string
  layers :: "layer list"
  activeLayerId :: "int option"
  nextLayerId :: int
  history :: "entry list"
  historyStep :: int
  maxHistory :: int

definition initial_state :: state where
  "initial_state =
     \<lparr>currentTool = Pen, color = ''#000000'', layers = [], activeLayerId = None,
      nextLayerId = 1, history = [], historyStep = - 1, maxHistory = 20\<rparr>"

text \<open>
  What a caller or the user observes of a call besides the new state: nothing (the
  function returns \<^verbatim>\<open>undefined\<close>), a thrown \<^verbatim>\<open>TypeError\<close>, or an alert box.
\<close>

datatype signal = Silent | TypeError | Alert string

section \<open>Layer management\<close>

text \<open>\<^verbatim>\<open>layers.findIndex(l => l.id === id)\<close>, with \<open>None\<close> for \<open>-1\<close>.\<close>

fun findIndex :: "layer list \<Rightarrow> int \<Rightarrow> nat option" where
  "findIndex [] i = None"
| "findIndex (l # ls) i = (if l_id l = i then Some 0 else map_option Suc (findIndex ls i))"

text \<open>\<^verbatim>\<open>Array.prototype.slice(0, e)\<close>: a negative end counts from the end of the array.\<close>

definition slice0 :: "'a list \<Rightarrow> int \<Rightarrow> 'a list" where
  "slice0 xs e = take (nat (if e < 0 then max 0 (int (length xs) + e) else e)) xs"

definition saveHistoryState :: "state \<Rightarrow> int \<Rightarrow> state" where
  "saveHistoryState s lid =
     (case findIndex (layers s) lid of
        None \<Rightarrow> s
      | Some idx \<Rightarrow>
          let layer = layers s ! idx;
              trimmed = (if historyStep s < int (length (history s)) - 1
                         then slice0 (history s) (historyStep s + 1) else history s);
              pushed = trimmed @ [\<lparr>layerId = lid, dataURL = toDataURL (l_canvas layer)\<rparr>];
              step = historyStep s + 1
          in if int (length pushed) > maxHistory s
             then s\<lparr>history := tl pushed, historyStep := step - 1\<rparr>
             else s\<lparr>history := pushed, historyStep := step\<rparr>)"

definition setActiveLayer :: "state \<Rightarrow> int \<Rightarrow> state" where
  "setActiveLayer s i = s\<lparr>activeLayerId := Some i\<rparr>"

definition addLayer :: "config \<Rightarrow> state \<Rightarrow> string \<Rightarrow> state" where
  "addLayer cfg s name =
     (let i = nextLayerId s;
          s1 = s\<lparr>nextLayerId := i + 1\<rparr>;
          canvas = (if length (layers s1) = 0 then fillRect_white cfg (createCanvas cfg)
                    else createCanvas cfg);
          layerObj = \<lparr>l_id = i, l_canvas = canvas, l_visible = True, l_name = name\<rparr>;
          s2 = s1\<lparr>layers := layers s1 @ [layerObj]\<rparr>
      in saveHistoryState (setActiveLayer s2 i) i)"


text \<open>
  \<^verbatim>\<open>deleteLayer\<close> returns \<^verbatim>\<open>undefined\<close> on each of its paths and throws on none;
  \<^verbatim>\<open>splice(idx, 1)\<close> removes the element at \<open>idx\<close>, and \<^verbatim>\<open>Math.max(0, idx - 1)\<close>
  is the truncating subtraction of \<open>nat\<close>.
\<close>

definition deleteLayer :: "state \<Rightarrow> int \<Rightarrow> signal \<times> state" where
  "deleteLayer s i =
     (if length (layers s) \<le> 1 then (Silent, s)
      else case findIndex (layers s) i of
             None \<Rightarrow> (Silent, s)
           | Some idx \<Rightarrow>
               let s1 = s\<lparr>layers := take idx (layers s) @ drop (Suc idx) (layers s)\<rparr>
               in if activeLayerId s1 = Some i
                  then (let newIdx = max 0 (idx - 1)
                        in (Silent, setActiveLayer s1 (l_id (layers s1 ! newIdx))))
                  else (Silent, s1))"

definition init :: "config \<Rightarrow> state" where
  "init cfg = addLayer cfg initial_state ''Background''"

section \<open>The pipette\<close>

text \<open>\<^verbatim>\<open>Number.prototype.toString(16)\<close> on a non-negative integer.\<close>

definition hex_digit :: "nat \<Rightarrow> char" where
  "hex_digit d = ''0123456789abcdef'' ! d"

fun toString16 :: "nat \<Rightarrow> string" where
  "toString16 n = (if n < 16 then [hex_digit n] else toString16 (n div 16) @ [hex_digit (n mod 16)])"

declare toString16.simps [simp del]

text \<open>\<^verbatim>\<open>"#" + ((1 << 24) + (r << 16) + (g << 8) + b).toString(16).slice(1)\<close>, on bytes.\<close>

definition rgbToHex :: "nat \<Rightarrow> nat \<Rightarrow> nat \<Rightarrow> string" where
  "rgbToHex r g b = ''#'' @ drop 1 (toString16 (2 ^ 24 + r * 2 ^ 16 + g * 2 ^ 8 + b))"

text \<open>
  \<^verbatim>\<open>pickColorGlobal\<close> draws the source pixel \<open>(x, y)\<close> of every visible layer, bottom
  to top, onto a fresh 1x1 canvas and reads that pixel back. The coordinates are pixel
  indices; a source rectangle outside the layer's canvas draws nothing.
\<close>

definition pickColorGlobal :: "config \<Rightarrow> state \<Rightarrow> nat \<Rightarrow> nat \<Rightarrow> state" where
  "pickColorGlobal cfg s x y =
     (let data = foldl (\<lambda>tCtx l. if l_visible l
                                  then source_over (canvas_pixel cfg (l_canvas l) x y) tCtx
                                  else tCtx)
                       transparent (layers s);
          hex = rgbToHex (red data) (green data) (blue data)
      in s\<lparr>color := hex, currentTool := Pen\<rparr>)"

section \<open>History\<close>

text \<open>
  The backwards scan of \<^verbatim>\<open>undo\<close>:
  \<^verbatim>\<open>for (let i = state.historyStep; i >= 0; i--)\<close>, leaving the first matching
  entry's data URL in \<^verbatim>\<open>prevData\<close>, or \<^verbatim>\<open>null\<close>.
\<close>

fun prevData :: "entry list \<Rightarrow> nat \<Rightarrow> int \<Rightarrow> data_url option" where
  "prevData h 0 lid = (if layerId (h ! 0) = lid then Some (dataURL (h ! 0)) else None)"
| "prevData h (Suc i) lid =
     (if layerId (h ! Suc i) = lid then Some (dataURL (h ! Suc i)) else prevData h i lid)"

text \<open>
  \<^verbatim>\<open>undo\<close>. When \<^verbatim>\<open>historyStep\<close> is not an index of the log,
  \<^verbatim>\<open>actionToUndo\<close> is \<^verbatim>\<open>undefined\<close> and reading its \<^verbatim>\<open>layerId\<close> in the scan
  throws, after the cursor has been decremented. The image's \<^verbatim>\<open>onload\<close> handler
  (clear the layer, draw the snapshot) is taken to have run when \<open>undo\<close> returns.
\<close>

definition undo :: "config \<Rightarrow> state \<Rightarrow> signal \<times> state" where
  "undo cfg s =
     (if historyStep s > 0 then
        (let step = historyStep s;
             s1 = s\<lparr>historyStep := step - 1\<rparr>
         in if int (length (history s1)) \<le> step then (TypeError, s1)
            else
              let actionToUndo = history s1 ! nat step;
                  prev = prevData (history s1) (nat (historyStep s1)) (layerId actionToUndo)
              in case findIndex (layers s1) (layerId actionToUndo) of
                   None \<Rightarrow> (Silent, s1)
                 | Some idx \<Rightarrow>
                     (case prev of
                        None \<Rightarrow> (Silent, s1)
                      | Some url \<Rightarrow>
                          (case decode url of
                             None \<Rightarrow> (Silent, s1)
                           | Some img \<Rightarrow>
                               (Silent,
                                s1\<lparr>layers := (layers s1)[idx := (layers s1 ! idx)
                                   \<lparr>l_canvas := drawImage cfg
                                      (clearRect cfg (l_canvas (layers s1 ! idx))) img\<rparr>]\<rparr>))))
      else (Silent, s))"

text \<open>
  \<^verbatim>\<open>clearCurrentLayer\<close>: \<^verbatim>\<open>getActiveCtx\<close> finds the active layer, if there is
  one; its canvas is cleared and the new content recorded.
\<close>

definition clearCurrentLayer :: "config \<Rightarrow> state \<Rightarrow> state" where
  "clearCurrentLayer cfg s =
     (case activeLayerId s of
        None \<Rightarrow> s
      | Some a \<Rightarrow>
          (case findIndex (layers s) a of
             None \<Rightarrow> s
           | Some idx \<Rightarrow>
               saveHistoryState
                 (s\<lparr>layers := (layers s)[idx := (layers s ! idx)
                      \<lparr>l_canvas := clearRect cfg (l_canvas (layers s ! idx))\<rparr>]\<rparr>) a))"

section \<open>Code generation\<close>

definition digit_char :: "nat \<Rightarrow> char" where
  "digit_char d = ''0123456789'' ! d"

text \<open>The decimal text of a number in a template literal.\<close>

fun show_nat :: "nat \<Rightarrow> string" where
  "show_nat n = (if n < 10 then [digit_char n] else show_nat (n div 10) @ [digit_char (n mod 10)])"

declare show_nat.simps [simp del]

text \<open>
  \<^verbatim>\<open>compositeVisible\<close> in the words of the specification: the first half of
  \<^verbatim>\<open>processAllLayers\<close>, up to \<^verbatim>\<open>getImageData\<close>.
\<close>

definition compositeVisible :: "config \<Rightarrow> layer list \<Rightarrow> surface" where
  "compositeVisible cfg ls =
     foldl (\<lambda>tCtx l. if l_visible l then drawImage cfg tCtx (l_canvas l) else tCtx)
           (fillRect_white cfg (createCanvas cfg)) ls"


definition fill_stmt :: "nat \<Rightarrow> nat \<Rightarrow> nat \<Rightarrow> string" where
  "fill_stmt r g b = ''  fill('' @ show_nat r @ '', '' @ show_nat g @ '', '' @ show_nat b @ '');''"

definition rect_stmt :: "nat \<Rightarrow> nat \<Rightarrow> string" where
  "rect_stmt x y = ''  rect('' @ show_nat x @ '', '' @ show_nat y @ '', 1);''"








section \<open>Project files\<close>

text \<open>
  \<^verbatim>\<open>JSON.parse\<close> either throws or yields the project record. Of the record,
  \<^verbatim>\<open>restoreProject\<close> reads \<^verbatim>\<open>nextLayerId\<close> and \<^verbatim>\<open>layers\<close>, each of which may
  be absent; an entry of \<^verbatim>\<open>layers\<close> is a layer record or \<^verbatim>\<open>null\<close> (\<open>None\<close>).
\<close>

record layer_data =
  ld_id :: int
  ld_name :: string
  ld_visible :: bool
  ld_data :: data_url

record project =
  p_nextLayerId :: "int option"
  p_layers :: "layer_data option list option"

datatype parse_result = SyntaxError | Parsed project

definition restored_layer :: "config \<Rightarrow> layer_data \<Rightarrow> layer" where
  "restored_layer cfg lData =
     \<lparr>l_id = ld_id lData, l_canvas = createCanvas cfg, l_visible = ld_visible lData,
      l_name = ld_name lData\<rparr>"

text \<open>
  The body of \<^verbatim>\<open>project.layers.forEach\<close>: every entry gets a fresh canvas, pushed on
  the stack as a layer, and an image whose \<^verbatim>\<open>onload\<close> handler is registered. Reading
  \<^verbatim>\<open>lData.id\<close> of a \<^verbatim>\<open>null\<close> entry throws before anything is pushed for it; the
  layers pushed before it stay.
\<close>

fun push_layers :: "config \<Rightarrow> layer_data option list \<Rightarrow> state \<Rightarrow> signal \<times> state" where
  "push_layers cfg [] s = (Silent, s)"
| "push_layers cfg (None # rest) s = (TypeError, s)"
| "push_layers cfg (Some lData # rest) s =
     push_layers cfg rest (s\<lparr>layers := layers s @ [restored_layer cfg lData]\<rparr>)"

text \<open>
  \<^verbatim>\<open>restoreProject\<close>, up to its return: the stack is emptied, \<^verbatim>\<open>nextLayerId\<close> set
  (\<^verbatim>\<open>project.nextLayerId || 1\<close>), and the layers pushed; \<^verbatim>\<open>forEach\<close> throws at once
  when \<^verbatim>\<open>layers\<close> is absent. No image has loaded yet: the canvases are blank and
  \<^verbatim>\<open>activeLayerId\<close> is what it was.
\<close>

definition restoreProject :: "config \<Rightarrow> state \<Rightarrow> project \<Rightarrow> signal \<times> state" where
  "restoreProject cfg s p =
     (let s1 = s\<lparr>layers := []\<rparr>;
          s2 = s1\<lparr>nextLayerId := (case p_nextLayerId p of
                                     None \<Rightarrow> 1 | Some n \<Rightarrow> if n = 0 then 1 else n)\<rparr>
      in case p_layers p of
           None \<Rightarrow> (TypeError, s2)
         | Some lds \<Rightarrow> push_layers cfg lds s2)"

text \<open>
  The \<^verbatim>\<open>onload\<close> handler of one layer image, a later event of its own. Its closure
  holds the canvas created for the layer, the image, the counter \<^verbatim>\<open>loadedCount\<close>
  shared by the handlers of one restore, and \<^verbatim>\<open>project.layers.length\<close>; they are
  arguments here. \<open>target\<close> is the place in the stack of the layer that owns the canvas
  when the event runs, \<open>None\<close> when that layer has left the stack (drawing on its canvas
  then changes nothing of the session). The handler that brings the counter to the
  number of entries activates the last layer of the stack as it then is. The new
  counter is returned with the state.
\<close>

definition image_onload ::
  "config \<Rightarrow> nat option \<Rightarrow> surface \<Rightarrow> nat \<Rightarrow> nat \<Rightarrow> state \<Rightarrow> nat \<times> state" where
  "image_onload cfg target img loadedCount count s =
     (let s1 = (case target of
                  None \<Rightarrow> s
                | Some k \<Rightarrow>
                    s\<lparr>layers := (layers s)[k := (layers s ! k)
                       \<lparr>l_canvas := drawImage cfg (l_canvas (layers s ! k)) img\<rparr>]\<rparr>);
          n = loadedCount + 1
      in if n = count
         then (if length (layers s1) > 0
               then (n, setActiveLayer s1 (l_id (last (layers s1)))) else (n, s1))
         else (n, s1))"




text \<open>
  The reader's \<^verbatim>\<open>onload\<close> handler of \<^verbatim>\<open>loadProject\<close>: \<open>None\<close> is no file chosen;
  whatever the \<^verbatim>\<open>try\<close> block throws is answered with the alert.
\<close>

definition loadProject :: "config \<Rightarrow> state \<Rightarrow> parse_result option \<Rightarrow> signal \<times> state" where
  "loadProject cfg s file =
     (case file of
        None \<Rightarrow> (Silent, s)
      | Some SyntaxError \<Rightarrow> (Alert ''Failed to load project file.'', s)
      | Some (Parsed p) \<Rightarrow>
          (case restoreProject cfg s p of
             (TypeError, s') \<Rightarrow> (Alert ''Failed to load project file.'', s')
           | r \<Rightarrow> r))"

section \<open>Vocabulary and example sessions\<close>


definition is_fill :: "string \<Rightarrow> bool" where
  "is_fill l = (take 7 l = ''  fill('')"

definition is_rect :: "string \<Rightarrow> bool" where
  "is_rect l = (take 7 l = ''  rect('')"



text \<open>
  Sessions on a canvas of one pixel: the start-up session \<open>init cfg1\<close> with a second
  layer added; that session after the user has selected the background and cleared it; and
  the two-layer session after the second layer has been deleted again.
\<close>

definition cfg1 :: config where
  "cfg1 = \<lparr>width = 1, height = 1\<rparr>"

definition example_two :: state where
  "example_two = addLayer cfg1 (init cfg1) ''Layer 2''"

definition example_cleared :: state where
  "example_cleared = clearCurrentLayer cfg1 (setActiveLayer example_two 1)"

definition example_deleted :: state where
  "example_deleted = snd (deleteLayer example_two 2)"

text \<open>
  Replacing the content of the layer \<open>i\<close> (the first one of that id) by an image, and what
  a canvas holds: as many pixels as the configuration says, a pixel of alpha 0 being
  transparent black (a canvas keeps no colour under alpha 0).
\<close>

definition replace_canvas :: "layer list \<Rightarrow> int \<Rightarrow> surface \<Rightarrow> layer list" where
  "replace_canvas ls i img =
     (case findIndex ls i of None \<Rightarrow> ls | Some idx \<Rightarrow> ls[idx := (ls ! idx)\<lparr>l_canvas := img\<rparr>])"

definition canvas_ok :: "config \<Rightarrow> surface \<Rightarrow> bool" where
  "canvas_ok cfg c =
     (length c = width cfg * height cfg \<and> (\<forall>p \<in> set c. alpha p = 0 \<longrightarrow> p = transparent))"

text \<open>
  The two-layer session after eighteen more recordings of the second layer: the log is
  full, with the cursor on its last entry.
\<close>

definition example_full :: state where
  "example_full = foldl saveHistoryState example_two (replicate 18 2)"

text \<open>
  Compositing the visible layers onto a given base: \<open>compositeVisible\<close> is this on the
  white-filled canvas. \<open>hex_of\<close> is the colour text of a pixel's red, green and blue.
\<close>

definition composite_onto :: "config \<Rightarrow> surface \<Rightarrow> layer list \<Rightarrow> surface" where
  "composite_onto cfg base ls =
     foldl (\<lambda>tCtx l. if l_visible l then drawImage cfg tCtx (l_canvas l) else tCtx) base ls"

definition hex_of :: "pixel \<Rightarrow> string" where
  "hex_of p = rgbToHex (red p) (green p) (blue p)"

text \<open>The start-up session after the user has cleared its only layer.\<close>

definition example_blank :: state where
  "example_blank = clearCurrentLayer cfg1 (init cfg1)"



















text \<open>The project record of a file that holds \<^verbatim>\<open>{}\<close>.\<close>

definition empty_project :: project where
  "empty_project = \<lparr>p_nextLayerId = None, p_layers = None\<rparr>"

section \<open>Properties of the layer stack\<close>

lemma findIndex_None_iff: "findIndex ls i = None \<longleftrightarrow> (\<forall>l \<in> set ls. l_id l \<noteq> i)"
  by (induction ls) auto

lemma findIndex_Some: "findIndex ls i = Some k \<Longrightarrow> k < length ls \<and> l_id (ls ! k) = i"
  by (induction ls arbitrary: k) (auto split: if_splits)

text \<open>
  C2 (amended). On a stack of exactly one layer \<open>deleteLayer\<close> changes nothing: layers,
  active selection, surfaces and history stay as they are. It returns as it does on every
  other path, so nothing tells the caller that the deletion was refused.
\<close>

theorem deleteLayer_last_layer:
  "length (layers s) = 1 \<Longrightarrow> deleteLayer s i = (Silent, s)"
  by (simp add: deleteLayer_def)

theorem deleteLayer_last_layer_witness:
  "length (layers (init cfg1)) = 1 \<and> deleteLayer (init cfg1) 1 = (Silent, init cfg1)"
proof -
  have h: "length (layers (init cfg1)) = 1" by code_simp
  from deleteLayer_last_layer [OF h] h show ?thesis by blast
qed

text \<open>
  C2 as stated fails: the refused deletion on the start-up session gives the caller
  exactly what the successful deletion of the second layer of \<open>example_two\<close> gives.
\<close>

theorem deleteLayer_report_counterexample:
  "length (layers (init cfg1)) = 1 \<and>
   fst (deleteLayer (init cfg1) 1) = Silent \<and>
   fst (deleteLayer (init cfg1) 1) = fst (deleteLayer example_two 2) \<and>
   length (layers example_two) = 2 \<and>
   length (layers (snd (deleteLayer example_two 2))) = 1"
  by code_simp

section \<open>Properties of the history log\<close>

lemma saveHistoryState_frame:
  "maxHistory (saveHistoryState s i) = maxHistory s \<and> layers (saveHistoryState s i) = layers s"
  by (simp add: saveHistoryState_def Let_def split: option.splits)

lemma slice0_cursor:
  "- 1 \<le> c \<Longrightarrow> slice0 xs (c + 1) = take (nat (c + 1)) xs"
  by (simp add: slice0_def)

lemma saveHistoryState_step:
  assumes "findIndex (layers s) i = Some idx"
    and "- 1 \<le> historyStep s" and "historyStep s < int (length (history s))"
  shows "let kept = take (nat (historyStep s + 1)) (history s);
             e = \<lparr>layerId = i, dataURL = toDataURL (l_canvas (layers s ! idx))\<rparr>
         in if int (length kept) + 1 > maxHistory s
            then history (saveHistoryState s i) = tl (kept @ [e]) \<and>
                 historyStep (saveHistoryState s i) = historyStep s + 1 - 1
            else history (saveHistoryState s i) = kept @ [e] \<and>
                 historyStep (saveHistoryState s i) = historyStep s + 1"
proof -
  have "(if historyStep s < int (length (history s)) - 1
         then slice0 (history s) (historyStep s + 1) else history s) =
        take (nat (historyStep s + 1)) (history s)"
    using assms(2,3) by (auto simp: slice0_cursor)
  then show ?thesis
    using assms(1) by (simp add: saveHistoryState_def Let_def)
qed

lemma saveHistoryState_ok:
  assumes "int (length (history s)) \<le> maxHistory s"
    and "- 1 \<le> historyStep s" and "historyStep s < int (length (history s))"
  shows "int (length (history (saveHistoryState s i))) \<le> maxHistory s \<and>
         - 1 \<le> historyStep (saveHistoryState s i) \<and>
         historyStep (saveHistoryState s i) < int (length (history (saveHistoryState s i)))"
proof (cases "findIndex (layers s) i")
  case None
  then show ?thesis using assms by (simp add: saveHistoryState_def)
next
  case (Some idx)
  from saveHistoryState_step [OF Some assms(2,3)] assms show ?thesis
    by (auto simp: Let_def split: if_splits)
qed


lemma records_ok:
  assumes "int (length (history s)) \<le> maxHistory s"
    and "- 1 \<le> historyStep s" and "historyStep s < int (length (history s))"
  shows "int (length (history (foldl saveHistoryState s ids))) \<le> maxHistory s \<and>
         - 1 \<le> historyStep (foldl saveHistoryState s ids) \<and>
         historyStep (foldl saveHistoryState s ids) <
           int (length (history (foldl saveHistoryState s ids)))"
  using assms
proof (induction ids arbitrary: s)
  case Nil
  then show ?case by simp
next
  case (Cons i ids)
  from saveHistoryState_ok [OF Cons.prems, of i] saveHistoryState_frame [of s i]
  have "int (length (history (saveHistoryState s i))) \<le> maxHistory (saveHistoryState s i)"
    and "- 1 \<le> historyStep (saveHistoryState s i)"
    and "historyStep (saveHistoryState s i) < int (length (history (saveHistoryState s i)))"
    by simp_all
  from Cons.IH [OF this] saveHistoryState_frame [of s i] show ?case by simp
qed

text \<open>
  C4. From a log within its bound whose cursor is \<open>-1\<close> or an index of the log, as the
  initial one is (empty, cursor \<open>-1\<close>, bound 20), the log stays within \<open>maxHistory\<close> after
  any sequence of recordings, whatever layers they name. One recording of a layer of the
  stack keeps the entries up to the cursor and appends the new entry; if that exceeds the
  bound, the oldest entry is dropped and the cursor, incremented for the append, is
  decremented by one; in both cases the cursor is on the new entry.
\<close>

theorem record_capacity_bound:
  assumes "int (length (history s)) \<le> maxHistory s"
    and "- 1 \<le> historyStep s" and "historyStep s < int (length (history s))"
  shows "int (length (history (foldl saveHistoryState s ids))) \<le> maxHistory s \<and>
         (findIndex (layers s) i = Some idx \<longrightarrow>
            (let kept = take (nat (historyStep s + 1)) (history s);
                 e = \<lparr>layerId = i, dataURL = toDataURL (l_canvas (layers s ! idx))\<rparr>
             in (if int (length kept) + 1 > maxHistory s
                 then history (saveHistoryState s i) = tl (kept @ [e]) \<and>
                      historyStep (saveHistoryState s i) = historyStep s + 1 - 1
                 else history (saveHistoryState s i) = kept @ [e] \<and>
                      historyStep (saveHistoryState s i) = historyStep s + 1) \<and>
                (0 < maxHistory s \<longrightarrow>
                   history (saveHistoryState s i) ! nat (historyStep (saveHistoryState s i)) = e)))"
proof -
  have bound: "int (length (history (foldl saveHistoryState s ids))) \<le> maxHistory s"
    using records_ok [OF assms] by simp
  have step: "findIndex (layers s) i = Some idx \<longrightarrow>
            (let kept = take (nat (historyStep s + 1)) (history s);
                 e = \<lparr>layerId = i, dataURL = toDataURL (l_canvas (layers s ! idx))\<rparr>
             in (if int (length kept) + 1 > maxHistory s
                 then history (saveHistoryState s i) = tl (kept @ [e]) \<and>
                      historyStep (saveHistoryState s i) = historyStep s + 1 - 1
                 else history (saveHistoryState s i) = kept @ [e] \<and>
                      historyStep (saveHistoryState s i) = historyStep s + 1) \<and>
                (0 < maxHistory s \<longrightarrow>
                   history (saveHistoryState s i) ! nat (historyStep (saveHistoryState s i)) = e))"
  proof
    assume found: "findIndex (layers s) i = Some idx"
    define kept where "kept = take (nat (historyStep s + 1)) (history s)"
    define e where "e = \<lparr>layerId = i, dataURL = toDataURL (l_canvas (layers s ! idx))\<rparr>"
    have len: "int (length kept) = historyStep s + 1"
      using assms(2,3) by (simp add: kept_def)
    have main: "if int (length kept) + 1 > maxHistory s
                 then history (saveHistoryState s i) = tl (kept @ [e]) \<and>
                      historyStep (saveHistoryState s i) = historyStep s + 1 - 1
                 else history (saveHistoryState s i) = kept @ [e] \<and>
                      historyStep (saveHistoryState s i) = historyStep s + 1"
      using saveHistoryState_step [OF found assms(2,3)] by (simp add: Let_def kept_def e_def)
    have cur: "0 < maxHistory s \<longrightarrow>
                   history (saveHistoryState s i) ! nat (historyStep (saveHistoryState s i)) = e"
    proof
      assume pos: "0 < maxHistory s"
      show "history (saveHistoryState s i) ! nat (historyStep (saveHistoryState s i)) = e"
      proof (cases "int (length kept) + 1 > maxHistory s")
        case True
        with main have h: "history (saveHistoryState s i) = tl (kept @ [e])"
          and c: "historyStep (saveHistoryState s i) = historyStep s" by simp_all
        from True pos len have ne: "kept \<noteq> []" by auto
        then have "tl (kept @ [e]) = tl kept @ [e]" by simp
        moreover from ne len have "nat (historyStep s) = length (tl kept)" by simp
        ultimately show ?thesis using h c by (simp only: nth_append_length)
      next
        case False
        with main have h: "history (saveHistoryState s i) = kept @ [e]"
          and c: "historyStep (saveHistoryState s i) = historyStep s + 1" by simp_all
        from len have "nat (historyStep s + 1) = length kept" by simp
        with h c show ?thesis by simp
      qed
    qed
    from main cur show "let kept = take (nat (historyStep s + 1)) (history s);
                 e = \<lparr>layerId = i, dataURL = toDataURL (l_canvas (layers s ! idx))\<rparr>
             in (if int (length kept) + 1 > maxHistory s
                 then history (saveHistoryState s i) = tl (kept @ [e]) \<and>
                      historyStep (saveHistoryState s i) = historyStep s + 1 - 1
                 else history (saveHistoryState s i) = kept @ [e] \<and>
                      historyStep (saveHistoryState s i) = historyStep s + 1) \<and>
                (0 < maxHistory s \<longrightarrow>
                   history (saveHistoryState s i) ! nat (historyStep (saveHistoryState s i)) = e)"
      unfolding Let_def kept_def e_def by blast
  qed
  from bound step show ?thesis by blast
qed


theorem record_capacity_bound_witness:
  "maxHistory example_full = 20 \<and> length (history example_full) = 20 \<and>
   historyStep example_full = 19 \<and>
   int (length (history (foldl saveHistoryState example_full [1, 2, 2, 1, 7, 1]))) \<le> 20 \<and>
   history (saveHistoryState example_full 1) =
     tl (history example_full) @
       [\<lparr>layerId = 1, dataURL = toDataURL (l_canvas (layers example_full ! 0))\<rparr>] \<and>
   historyStep (saveHistoryState example_full 1) = 19 \<and>
   hd (history example_full) \<noteq> hd (history (saveHistoryState example_full 1))"
proof -
  have m: "maxHistory example_full = 20" by code_simp
  have l: "length (history example_full) = 20" by code_simp
  have c: "historyStep example_full = 19" by code_simp
  have f: "findIndex (layers example_full) 1 = Some 0" by code_simp
  have k: "take (nat (historyStep example_full + 1)) (history example_full) = history example_full"
    using l c by simp
  have ne: "history example_full \<noteq> []" using l by auto
  have d: "hd (history example_full) \<noteq> hd (history (saveHistoryState example_full 1))"
    by code_simp
  from record_capacity_bound [of example_full "[1, 2, 2, 1, 7, 1]" 1 0] m l c f
  have "int (length (history (foldl saveHistoryState example_full [1, 2, 2, 1, 7, 1]))) \<le> 20"
    and "history (saveHistoryState example_full 1) =
     tl (history example_full @
       [\<lparr>layerId = 1, dataURL = toDataURL (l_canvas (layers example_full ! 0))\<rparr>])"
    and "historyStep (saveHistoryState example_full 1) = 19"
    unfolding Let_def k by simp_all
  with m l c d ne show ?thesis by simp
qed

section \<open>Properties of undo\<close>

lemma undo_layers:
  "layers (snd (undo cfg s)) = layers s \<or>
   (\<exists>idx c. findIndex (layers s) (layerId (history s ! nat (historyStep s))) = Some idx \<and>
      layers (snd (undo cfg s)) = (layers s)[idx := (layers s ! idx)\<lparr>l_canvas := c\<rparr>])"
  by (auto simp: undo_def Let_def split: option.splits)

text \<open>
  C6. \<open>undo\<close> keeps the number and order of the layers, and every layer whose id is not
  the \<open>layerId\<close> of the entry at the cursor keeps its place, canvas, visibility and name.
\<close>

theorem undo_other_layers_unchanged:
  "length (layers (snd (undo cfg s))) = length (layers s) \<and>
   (\<forall>k < length (layers s).
      l_id (layers s ! k) \<noteq> layerId (history s ! nat (historyStep s)) \<longrightarrow>
      layers (snd (undo cfg s)) ! k = layers s ! k)"
proof -
  consider (same) "layers (snd (undo cfg s)) = layers s"
    | (upd) idx c where
        "findIndex (layers s) (layerId (history s ! nat (historyStep s))) = Some idx"
        "layers (snd (undo cfg s)) = (layers s)[idx := (layers s ! idx)\<lparr>l_canvas := c\<rparr>]"
    using undo_layers [of cfg s] by blast
  then show ?thesis
  proof cases
    case same
    then show ?thesis by simp
  next
    case upd
    from upd(1) have "l_id (layers s ! idx) = layerId (history s ! nat (historyStep s))"
      by (simp add: findIndex_Some)
    then have "\<forall>k < length (layers s).
        l_id (layers s ! k) \<noteq> layerId (history s ! nat (historyStep s)) \<longrightarrow> k \<noteq> idx"
      by auto
    with upd(2) show ?thesis by auto
  qed
qed

theorem undo_other_layers_unchanged_witness:
  "l_id (layers example_cleared ! 1) \<noteq>
     layerId (history example_cleared ! nat (historyStep example_cleared)) \<and>
   layers (snd (undo cfg1 example_cleared)) ! 1 = layers example_cleared ! 1 \<and>
   layers (snd (undo cfg1 example_cleared)) ! 0 \<noteq> layers example_cleared ! 0"
proof -
  have a: "(1::nat) < length (layers example_cleared)" by code_simp
  have b: "l_id (layers example_cleared ! 1) \<noteq>
     layerId (history example_cleared ! nat (historyStep example_cleared))" by code_simp
  from undo_other_layers_unchanged [of cfg1 example_cleared] a b
  have "layers (snd (undo cfg1 example_cleared)) ! 1 = layers example_cleared ! 1" by blast
  moreover have "layers (snd (undo cfg1 example_cleared)) ! 0 \<noteq> layers example_cleared ! 0"
    by code_simp
  ultimately show ?thesis using b by blast
qed

text \<open>
  C10. When the entry at the cursor names a layer that is no longer in the stack, \<open>undo\<close>
  moves the cursor down by one, changes nothing else, and neither throws nor alerts.
\<close>

theorem undo_deleted_layer:
  assumes "0 < historyStep s" and "historyStep s < int (length (history s))"
    and "\<forall>l \<in> set (layers s). l_id l \<noteq> layerId (history s ! nat (historyStep s))"
  shows "undo cfg s = (Silent, s\<lparr>historyStep := historyStep s - 1\<rparr>)"
proof -
  from assms(3) have "findIndex (layers s) (layerId (history s ! nat (historyStep s))) = None"
    by (simp add: findIndex_None_iff)
  with assms(1,2) show ?thesis
    by (simp add: undo_def Let_def)
qed

theorem undo_deleted_layer_witness:
  "historyStep example_deleted = 1 \<and> map l_id (layers example_deleted) = [1] \<and>
   layerId (history example_deleted ! 1) = 2 \<and>
   undo cfg1 example_deleted = (Silent, example_deleted\<lparr>historyStep := 0\<rparr>)"
proof -
  have a: "historyStep example_deleted = 1" by code_simp
  have b: "map l_id (layers example_deleted) = [1]" by code_simp
  have c: "layerId (history example_deleted ! 1) = 2" by code_simp
  have d: "length (history example_deleted) = 2" by code_simp
  have e: "\<forall>l \<in> set (layers example_deleted).
             l_id l \<noteq> layerId (history example_deleted ! nat (historyStep example_deleted))"
    by code_simp
  from undo_deleted_layer [of example_deleted cfg1, OF _ _ e] a d
  have "undo cfg1 example_deleted = (Silent, example_deleted\<lparr>historyStep := 0\<rparr>)" by simp
  with a b c show ?thesis by blast
qed

lemma prevData_Max:
  "prevData h c lid =
     (if {j. j \<le> c \<and> layerId (h ! j) = lid} = {} then None
      else Some (dataURL (h ! Max {j. j \<le> c \<and> layerId (h ! j) = lid})))"
proof (induction c)
  case 0
  show ?case
  proof (cases "layerId (h ! 0) = lid")
    case True
    then have "{j. j \<le> 0 \<and> layerId (h ! j) = lid} = {0}" by auto
    with True show ?thesis by simp
  next
    case False
    then have "{j. j \<le> 0 \<and> layerId (h ! j) = lid} = {}" by auto
    with False show ?thesis by simp
  qed
next
  case (Suc c)
  show ?case
  proof (cases "layerId (h ! Suc c) = lid")
    case True
    have fin: "finite {j. j \<le> Suc c \<and> layerId (h ! j) = lid}" by simp
    from True have mem: "Suc c \<in> {j. j \<le> Suc c \<and> layerId (h ! j) = lid}" by simp
    have "Max {j. j \<le> Suc c \<and> layerId (h ! j) = lid} = Suc c"
      by (rule Max_eqI [OF fin _ mem]) simp
    with True mem show ?thesis by auto
  next
    case False
    then have "{j. j \<le> Suc c \<and> layerId (h ! j) = lid} = {j. j \<le> c \<and> layerId (h ! j) = lid}"
      by (auto simp: le_Suc_eq)
    with False Suc show ?thesis by simp
  qed
qed

lemma source_over_transparent:
  "(alpha p = 0 \<longrightarrow> p = transparent) \<Longrightarrow> source_over p transparent = p"
  by (cases "alpha p = 0") (auto simp: source_over_def transparent_def Let_def)

lemma drawImage_onto_blank:
  assumes "canvas_ok cfg img"
  shows "drawImage cfg (createCanvas cfg) img = img"
proof (rule nth_equalityI)
  show "length (drawImage cfg (createCanvas cfg) img) = length img"
    using assms by (simp add: drawImage_def canvas_ok_def)
next
  fix k assume "k < length (drawImage cfg (createCanvas cfg) img)"
  then have k: "k < width cfg * height cfg" by (simp add: drawImage_def)
  with assms have "img ! k \<in> set img" by (simp add: canvas_ok_def)
  with assms have "alpha (img ! k) = 0 \<longrightarrow> img ! k = transparent" by (simp add: canvas_ok_def)
  then have "source_over (img ! k) transparent = img ! k" by (rule source_over_transparent)
  with k assms show "drawImage cfg (createCanvas cfg) img ! k = img ! k"
    by (simp add: drawImage_def createCanvas_def pixel_at_def canvas_ok_def)
qed


text \<open>
  The initial log is within its bound with the cursor at \<open>-1\<close>; recording keeps the log
  within the bound and the cursor at \<open>-1\<close> or on an entry (\<open>records_ok\<close>), and so does
  \<open>undo\<close>, which leaves the log itself alone.
\<close>

lemma initial_state_history:
  "maxHistory initial_state = 20 \<and>
   int (length (history initial_state)) \<le> maxHistory initial_state \<and>
   - 1 \<le> historyStep initial_state \<and>
   historyStep initial_state < int (length (history initial_state))"
  by (simp add: initial_state_def)

lemma undo_cursor_in_range:
  assumes "- 1 \<le> historyStep s" and "historyStep s < int (length (history s))"
  shows "history (snd (undo cfg s)) = history s \<and>
         maxHistory (snd (undo cfg s)) = maxHistory s \<and>
         - 1 \<le> historyStep (snd (undo cfg s)) \<and>
         historyStep (snd (undo cfg s)) < int (length (history (snd (undo cfg s))))"
  using assms by (auto simp: undo_def Let_def split: option.splits)

lemma undo_noop: "historyStep s \<le> 0 \<Longrightarrow> undo cfg s = (Silent, s)"
  by (simp add: undo_def)

lemma undo_in_range:
  assumes "0 < historyStep s" and "historyStep s < int (length (history s))"
  shows "undo cfg s =
     (Silent,
      s\<lparr>historyStep := historyStep s - 1,
        layers :=
          (case prevData (history s) (nat (historyStep s - 1))
                  (layerId (history s ! nat (historyStep s))) of
             None \<Rightarrow> layers s
           | Some url \<Rightarrow>
               (case decode url of
                  None \<Rightarrow> layers s
                | Some img \<Rightarrow>
                    replace_canvas (layers s) (layerId (history s ! nat (historyStep s)))
                      (drawImage cfg (createCanvas cfg) img)))\<rparr>)"
  using assms
  by (simp add: undo_def Let_def replace_canvas_def clearRect_def createCanvas_def
      split: option.splits)

text \<open>
  C5. With the cursor at or below 0, \<open>undo\<close> changes nothing. With the cursor on an entry
  of the log, \<open>undo\<close> returns silently, moves the cursor down by one and leaves every field
  but the layers alone. \<open>J\<close> holds the indices below the old cursor whose entry names
  the same layer as the entry undone: if there is none the layers stay as they are;
  otherwise the snapshot of the largest such index is drawn onto the cleared canvas of
  that layer, which for a snapshot of a canvas makes the canvas equal to the snapshot.
\<close>

theorem undo_previous_snapshot:
  "(historyStep s \<le> 0 \<longrightarrow> undo cfg s = (Silent, s)) \<and>
   (0 < historyStep s \<and> historyStep s < int (length (history s)) \<longrightarrow>
      (let lid = layerId (history s ! nat (historyStep s));
           J = {j. int j < historyStep s \<and> layerId (history s ! j) = lid}
       in fst (undo cfg s) = Silent \<and>
          snd (undo cfg s) =
            s\<lparr>historyStep := historyStep s - 1, layers := layers (snd (undo cfg s))\<rparr> \<and>
          (J = {} \<longrightarrow> layers (snd (undo cfg s)) = layers s) \<and>
          (J \<noteq> {} \<longrightarrow>
             (\<forall>img. decode (dataURL (history s ! Max J)) = Some img \<longrightarrow>
                layers (snd (undo cfg s)) =
                  replace_canvas (layers s) lid (drawImage cfg (createCanvas cfg) img) \<and>
                (canvas_ok cfg img \<longrightarrow>
                   layers (snd (undo cfg s)) = replace_canvas (layers s) lid img)))))"
proof (intro conjI impI)
  assume "historyStep s \<le> 0"
  then show "undo cfg s = (Silent, s)" by (rule undo_noop)
next
  assume rng: "0 < historyStep s \<and> historyStep s < int (length (history s))"
  define lid where "lid = layerId (history s ! nat (historyStep s))"
  define J where "J = {j. int j < historyStep s \<and> layerId (history s ! j) = lid}"
  have J: "{j. j \<le> nat (historyStep s - 1) \<and> layerId (history s ! j) = lid} = J"
    using rng by (auto simp: J_def)
  note u = undo_in_range [of s cfg, folded lid_def, unfolded prevData_Max J] 
  have a: "fst (undo cfg s) = Silent" using rng by (simp add: u)
  have b: "snd (undo cfg s) =
            s\<lparr>historyStep := historyStep s - 1, layers := layers (snd (undo cfg s))\<rparr>"
    using rng by (simp add: u)
  have c: "J = {} \<longrightarrow> layers (snd (undo cfg s)) = layers s"
    using rng by (simp add: u)
  have d: "J \<noteq> {} \<longrightarrow>
             (\<forall>img. decode (dataURL (history s ! Max J)) = Some img \<longrightarrow>
                layers (snd (undo cfg s)) =
                  replace_canvas (layers s) lid (drawImage cfg (createCanvas cfg) img) \<and>
                (canvas_ok cfg img \<longrightarrow>
                   layers (snd (undo cfg s)) = replace_canvas (layers s) lid img))"
    using rng by (auto simp: u drawImage_onto_blank)
  from a b c d show "let lid = layerId (history s ! nat (historyStep s));
           J = {j. int j < historyStep s \<and> layerId (history s ! j) = lid}
       in fst (undo cfg s) = Silent \<and>
          snd (undo cfg s) =
            s\<lparr>historyStep := historyStep s - 1, layers := layers (snd (undo cfg s))\<rparr> \<and>
          (J = {} \<longrightarrow> layers (snd (undo cfg s)) = layers s) \<and>
          (J \<noteq> {} \<longrightarrow>
             (\<forall>img. decode (dataURL (history s ! Max J)) = Some img \<longrightarrow>
                layers (snd (undo cfg s)) =
                  replace_canvas (layers s) lid (drawImage cfg (createCanvas cfg) img) \<and>
                (canvas_ok cfg img \<longrightarrow>
                   layers (snd (undo cfg s)) = replace_canvas (layers s) lid img)))"
    unfolding Let_def lid_def [symmetric] J_def [symmetric] by blast
qed


theorem undo_previous_snapshot_witness:
  "historyStep example_cleared = 2 \<and>
   layerId (history example_cleared ! 2) = 1 \<and>
   l_canvas (layers example_cleared ! 0) = [transparent] \<and>
   dataURL (history example_cleared ! 0) = ImageURL [white] \<and>
   fst (undo cfg1 example_cleared) = Silent \<and>
   historyStep (snd (undo cfg1 example_cleared)) = 1 \<and>
   layers (snd (undo cfg1 example_cleared)) = replace_canvas (layers example_cleared) 1 [white] \<and>
   l_canvas (layers (snd (undo cfg1 example_cleared)) ! 0) = [white]"
proof -
  have hs: "historyStep example_cleared = 2" by code_simp
  have len: "length (history example_cleared) = 3" by code_simp
  have l0: "layerId (history example_cleared ! 0) = 1" by code_simp
  have l1: "layerId (history example_cleared ! 1) = 2" by code_simp
  have l2: "layerId (history example_cleared ! 2) = 1" by code_simp
  have cv: "l_canvas (layers example_cleared ! 0) = [transparent]" by code_simp
  have url: "dataURL (history example_cleared ! 0) = ImageURL [white]" by code_simp
  have ok: "canvas_ok cfg1 [white]"
    by (simp add: canvas_ok_def cfg1_def white_def)
  have rc: "l_canvas (replace_canvas (layers example_cleared) 1 [white] ! 0) = [white]"
    by code_simp
  have J: "{j. int j < historyStep example_cleared \<and>
              layerId (history example_cleared ! j) = 1} = {0}"
  proof -
    have "(int j < 2 \<and> layerId (history example_cleared ! j) = 1) = (j = 0)" for j
    proof -
      consider "j = 0" | "j = 1" | "2 \<le> j" by linarith
      then show ?thesis
      proof cases
        case 1
        then show ?thesis using l0 by simp
      next
        case 2
        then show ?thesis using l1 by simp
      next
        case 3
        then show ?thesis by simp
      qed
    qed
    then show ?thesis unfolding hs by simp
  qed
  have rng: "0 < historyStep example_cleared \<and>
             historyStep example_cleared < int (length (history example_cleared))"
    using hs len by simp
  have dec: "decode (dataURL (history example_cleared ! Max {0})) = Some [white]"
    using url by simp
  have lid: "layerId (history example_cleared ! nat (historyStep example_cleared)) = 1"
    using hs l2 by simp
  note T = undo_previous_snapshot [of example_cleared cfg1, THEN conjunct2, THEN mp, OF rng,
      unfolded Let_def lid J]
  from T have "fst (undo cfg1 example_cleared) = Silent" by blast
  moreover from T have "\<forall>img. decode (dataURL (history example_cleared ! Max {0})) = Some img \<longrightarrow>
      (canvas_ok cfg1 img \<longrightarrow>
         layers (snd (undo cfg1 example_cleared)) = replace_canvas (layers example_cleared) 1 img)"
    by blast
  with dec ok have "layers (snd (undo cfg1 example_cleared)) =
           replace_canvas (layers example_cleared) 1 [white]"
    by blast
  moreover have "historyStep (snd (undo cfg1 example_cleared)) = 1" by code_simp
  ultimately show ?thesis using hs l2 cv url rc by simp
qed

section \<open>Properties of the pipette\<close>

lemma compositeVisible_onto:
  "compositeVisible cfg ls = composite_onto cfg (fillRect_white cfg (createCanvas cfg)) ls"
  by (simp add: compositeVisible_def composite_onto_def)

lemma index_in_canvas:
  assumes "x < width cfg" and "y < height cfg"
  shows "y * width cfg + x < width cfg * height cfg"
proof -
  have "y * width cfg + x < y * width cfg + width cfg" using assms(1) by simp
  also have "\<dots> = Suc y * width cfg" by simp
  also have "\<dots> \<le> height cfg * width cfg"
    using assms(2) by (intro mult_le_mono1) simp
  finally show ?thesis by (simp add: mult.commute)
qed

lemma drawImage_nth:
  "k < width cfg * height cfg \<Longrightarrow> length b = width cfg * height cfg \<Longrightarrow>
   drawImage cfg b c ! k = source_over (pixel_at c k) (b ! k)"
  by (simp add: drawImage_def pixel_at_def)

lemma length_drawImage: "length (drawImage cfg b c) = width cfg * height cfg"
  by (simp add: drawImage_def)

lemma composite_onto_nth:
  assumes "k < width cfg * height cfg"
  shows "length b = width cfg * height cfg \<Longrightarrow>
    composite_onto cfg b ls ! k =
      foldl (\<lambda>t l. if l_visible l then source_over (pixel_at (l_canvas l) k) t else t) (b ! k) ls"
proof (induction ls arbitrary: b)
  case Nil
  then show ?case by (simp add: composite_onto_def)
next
  case (Cons l ls)
  show ?case
  proof (cases "l_visible l")
    case True
    have "composite_onto cfg b (l # ls) = composite_onto cfg (drawImage cfg b (l_canvas l)) ls"
      using True by (simp add: composite_onto_def)
    also have "\<dots> ! k = foldl (\<lambda>t l. if l_visible l then source_over (pixel_at (l_canvas l) k) t else t)
        (drawImage cfg b (l_canvas l) ! k) ls"
      by (rule Cons.IH) (rule length_drawImage)
    finally show ?thesis
      using True assms Cons.prems by (simp add: drawImage_nth)
  next
    case False
    have "composite_onto cfg b (l # ls) = composite_onto cfg b ls"
      using False by (simp add: composite_onto_def)
    with Cons.IH [OF Cons.prems] False show ?thesis by simp
  qed
qed

lemma column_opaque:
  "\<exists>l \<in> set ls. l_visible l \<and> 255 \<le> alpha (f l) \<Longrightarrow>
   foldl (\<lambda>t l. if l_visible l then source_over (f l) t else t) a ls =
   foldl (\<lambda>t l. if l_visible l then source_over (f l) t else t) b ls"
proof (induction ls arbitrary: a b)
  case Nil
  then show ?case by simp
next
  case (Cons l ls)
  show ?case
  proof (cases "l_visible l \<and> 255 \<le> alpha (f l)")
    case True
    then have "source_over (f l) a = source_over (f l) b"
      by (simp add: source_over_def)
    with True show ?thesis by simp
  next
    case False
    with Cons.prems have "\<exists>l \<in> set ls. l_visible l \<and> 255 \<le> alpha (f l)" by auto
    from Cons.IH [OF this] show ?thesis by simp
  qed
qed

lemma column_transparent:
  "\<forall>l \<in> set ls. l_visible l \<longrightarrow> alpha (f l) = 0 \<Longrightarrow>
   foldl (\<lambda>t l. if l_visible l then source_over (f l) t else t) a ls = a"
  by (induction ls arbitrary: a) (auto simp: source_over_def)

lemma hex_black: "rgbToHex 0 0 0 = ''#000000''"
  by (simp add: rgbToHex_def toString16.simps hex_digit_def)

lemma hex_white: "rgbToHex 255 255 255 = ''#ffffff''"
  by (simp add: rgbToHex_def toString16.simps hex_digit_def)


lemma pickColorGlobal_column:
  assumes "x < width cfg" and "y < height cfg"
  shows "color (pickColorGlobal cfg s x y) =
     hex_of (foldl (\<lambda>t l. if l_visible l
                            then source_over (pixel_at (l_canvas l) (y * width cfg + x)) t else t)
               transparent (layers s))"
proof -
  have cp: "canvas_pixel cfg c x y = pixel_at c (y * width cfg + x)" for c
    using assms by (simp add: canvas_pixel_def)
  show ?thesis
    unfolding pickColorGlobal_def Let_def hex_of_def cp by simp
qed

text \<open>
  C3 (amended). For a pixel \<open>(x, y)\<close> of the canvas, \<open>pickColorGlobal\<close> sets the colour
  to that of the pixel column at \<open>(x, y)\<close> composited bottom to top over a transparent
  canvas, not over the white base. It is the colour of \<open>compositeVisible\<close> at \<open>(x, y)\<close>
  whenever a visible layer is opaque there; where every visible layer is fully transparent
  it is \<open>#000000\<close>, while \<open>compositeVisible\<close> holds white.
\<close>

theorem pickColor_transparent_base:
  assumes "x < width cfg" and "y < height cfg"
  shows "color (pickColorGlobal cfg s x y) =
           hex_of (composite_onto cfg (createCanvas cfg) (layers s) ! (y * width cfg + x)) \<and>
         ((\<exists>l \<in> set (layers s). l_visible l \<and> 255 \<le> alpha (canvas_pixel cfg (l_canvas l) x y)) \<longrightarrow>
            color (pickColorGlobal cfg s x y) =
              hex_of (compositeVisible cfg (layers s) ! (y * width cfg + x))) \<and>
         ((\<forall>l \<in> set (layers s). l_visible l \<longrightarrow> alpha (canvas_pixel cfg (l_canvas l) x y) = 0) \<longrightarrow>
            color (pickColorGlobal cfg s x y) = ''#000000'' \<and>
            compositeVisible cfg (layers s) ! (y * width cfg + x) = white)"
proof -
  let ?k = "y * width cfg + x"
  let ?col = "\<lambda>a. foldl (\<lambda>t l. if l_visible l
                            then source_over (pixel_at (l_canvas l) ?k) t else t) a (layers s)"
  have k: "?k < width cfg * height cfg" using assms by (rule index_in_canvas)
  have cp: "canvas_pixel cfg c x y = pixel_at c ?k" for c
    using assms by (simp add: canvas_pixel_def)
  have pick: "color (pickColorGlobal cfg s x y) = hex_of (?col transparent)"
    using assms by (rule pickColorGlobal_column)
  have blank: "composite_onto cfg (createCanvas cfg) (layers s) ! ?k = ?col transparent"
    using composite_onto_nth [OF k, of "createCanvas cfg" "layers s"] k
    by (simp add: createCanvas_def)
  have full: "compositeVisible cfg (layers s) ! ?k = ?col white"
    using composite_onto_nth [OF k, of "fillRect_white cfg (createCanvas cfg)" "layers s"] k
    by (simp add: compositeVisible_onto fillRect_white_def)
  have a: "color (pickColorGlobal cfg s x y) =
           hex_of (composite_onto cfg (createCanvas cfg) (layers s) ! ?k)"
    by (simp only: pick blank)
  have b: "(\<exists>l \<in> set (layers s). l_visible l \<and> 255 \<le> alpha (canvas_pixel cfg (l_canvas l) x y)) \<longrightarrow>
            color (pickColorGlobal cfg s x y) = hex_of (compositeVisible cfg (layers s) ! ?k)"
  proof
    assume "\<exists>l \<in> set (layers s). l_visible l \<and> 255 \<le> alpha (canvas_pixel cfg (l_canvas l) x y)"
    then have "\<exists>l \<in> set (layers s). l_visible l \<and> 255 \<le> alpha (pixel_at (l_canvas l) ?k)"
      by (simp only: cp)
    then have "?col transparent = ?col white" by (rule column_opaque)
    then show "color (pickColorGlobal cfg s x y) = hex_of (compositeVisible cfg (layers s) ! ?k)"
      by (simp only: pick full)
  qed
  have c: "(\<forall>l \<in> set (layers s). l_visible l \<longrightarrow> alpha (canvas_pixel cfg (l_canvas l) x y) = 0) \<longrightarrow>
            color (pickColorGlobal cfg s x y) = ''#000000'' \<and>
            compositeVisible cfg (layers s) ! ?k = white"
  proof
    assume "\<forall>l \<in> set (layers s). l_visible l \<longrightarrow> alpha (canvas_pixel cfg (l_canvas l) x y) = 0"
    then have t: "\<forall>l \<in> set (layers s). l_visible l \<longrightarrow> alpha (pixel_at (l_canvas l) ?k) = 0"
      by (simp only: cp)
    have "?col transparent = transparent" using t by (rule column_transparent)
    moreover have "?col white = white" using t by (rule column_transparent)
    moreover have "hex_of transparent = ''#000000''"
      by (simp add: hex_of_def transparent_def hex_black)
    ultimately show "color (pickColorGlobal cfg s x y) = ''#000000'' \<and>
            compositeVisible cfg (layers s) ! ?k = white"
      by (simp only: pick full)
  qed
  from a b c show ?thesis by blast
qed

text \<open>
  C3 as stated fails on the start-up session with its layer cleared: the pipette gives
  black where the flattened buffer is white.
\<close>

theorem pickColor_counterexample:
  "color (pickColorGlobal cfg1 example_blank 0 0) = ''#000000'' \<and>
   hex_of (compositeVisible cfg1 (layers example_blank) ! (0 * width cfg1 + 0)) = ''#ffffff''"
proof -
  have L: "layers example_blank =
     [\<lparr>l_id = 1, l_canvas = [transparent], l_visible = True, l_name = ''Background''\<rparr>]"
    by code_simp
  have a: "color (pickColorGlobal cfg1 example_blank 0 0) = ''#000000''"
    by (simp add: pickColorGlobal_def L canvas_pixel_def cfg1_def pixel_at_def source_over_def
        transparent_def hex_black Let_def)
  have "compositeVisible cfg1 (layers example_blank) ! (0 * width cfg1 + 0) = white"
    by code_simp
  then have "hex_of (compositeVisible cfg1 (layers example_blank) ! (0 * width cfg1 + 0)) = ''#ffffff''"
    by (simp add: hex_of_def white_def hex_white)
  with a show ?thesis by blast
qed

theorem pickColor_transparent_base_witness:
  "color (pickColorGlobal cfg1 (init cfg1) 0 0) = ''#ffffff'' \<and>
   color (pickColorGlobal cfg1 (init cfg1) 0 0) =
     hex_of (compositeVisible cfg1 (layers (init cfg1)) ! (0 * width cfg1 + 0)) \<and>
   color (pickColorGlobal cfg1 example_blank 0 0) = ''#000000'' \<and>
   compositeVisible cfg1 (layers example_blank) ! (0 * width cfg1 + 0) = white"
proof -
  have w: "0 < width cfg1" and h: "0 < height cfg1" by (simp_all add: cfg1_def)
  have op: "\<exists>l \<in> set (layers (init cfg1)).
              l_visible l \<and> 255 \<le> alpha (canvas_pixel cfg1 (l_canvas l) 0 0)"
    by code_simp
  have tr: "\<forall>l \<in> set (layers example_blank).
              l_visible l \<longrightarrow> alpha (canvas_pixel cfg1 (l_canvas l) 0 0) = 0"
    by code_simp
  have cw: "compositeVisible cfg1 (layers (init cfg1)) ! (0 * width cfg1 + 0) = white"
    by code_simp
  from pickColor_transparent_base [OF w h, of "init cfg1"] op
  have a: "color (pickColorGlobal cfg1 (init cfg1) 0 0) =
     hex_of (compositeVisible cfg1 (layers (init cfg1)) ! (0 * width cfg1 + 0))"
    by blast
  then have b: "color (pickColorGlobal cfg1 (init cfg1) 0 0) = ''#ffffff''"
    unfolding cw by (simp add: hex_of_def white_def hex_white)
  from pickColor_transparent_base [OF w h, of example_blank] tr
  have c: "color (pickColorGlobal cfg1 example_blank 0 0) = ''#000000'' \<and>
   compositeVisible cfg1 (layers example_blank) ! (0 * width cfg1 + 0) = white"
    by blast
  from a b c show ?thesis by blast
qed

section \<open>Properties of the compiler\<close>



lemma stmt_kinds [simp]:
  "is_fill (fill_stmt r g b)" "\<not> is_fill (rect_stmt x y)"
  "is_rect (rect_stmt x y)" "\<not> is_rect (fill_stmt r g b)"
  by (simp_all add: is_fill_def is_rect_def fill_stmt_def rect_stmt_def)








section \<open>The active layer\<close>
































section \<open>Properties of project loading\<close>

lemma push_layers_history:
  "history (snd (push_layers cfg lds s)) = history s \<and>
   historyStep (snd (push_layers cfg lds s)) = historyStep s"
  by (induction cfg lds s rule: push_layers.induct) simp_all

lemma image_onload_history:
  "history (snd (image_onload cfg target img n c s)) = history s \<and>
   historyStep (snd (image_onload cfg target img n c s)) = historyStep s"
  by (simp add: image_onload_def Let_def setActiveLayer_def split: option.splits)

text \<open>
  C1 (amended). When \<^verbatim>\<open>JSON.parse\<close> fails, the load is answered with the alert and the
  session is exactly what it was; when no file was chosen nothing happens; and no load,
  failed or not, and no image load event after it touches the history log or its cursor.
\<close>

theorem loadProject_parse_failure:
  "loadProject cfg s (Some SyntaxError) = (Alert ''Failed to load project file.'', s) \<and>
   loadProject cfg s None = (Silent, s) \<and>
   history (snd (loadProject cfg s file)) = history s \<and>
   historyStep (snd (loadProject cfg s file)) = historyStep s \<and>
   history (snd (image_onload cfg target img n c s)) = history s \<and>
   historyStep (snd (image_onload cfg target img n c s)) = historyStep s"
proof -
  have "history (snd (restoreProject cfg s p)) = history s \<and>
        historyStep (snd (restoreProject cfg s p)) = historyStep s" for p
    by (simp add: restoreProject_def Let_def push_layers_history split: option.splits)
  then have "history (snd (loadProject cfg s file)) = history s \<and>
        historyStep (snd (loadProject cfg s file)) = historyStep s"
    by (auto simp: loadProject_def split: option.splits parse_result.splits signal.splits
        prod.splits) (metis snd_conv)+
  then show ?thesis
    by (simp add: loadProject_def image_onload_history)
qed

text \<open>
  C1 as stated fails: a file that parses to a record without \<^verbatim>\<open>layers\<close> is answered
  with the same alert, and the layer stack of the session is gone.
\<close>

theorem loadProject_counterexample:
  "layers (init cfg1) \<noteq> [] \<and>
   fst (loadProject cfg1 (init cfg1) (Some (Parsed empty_project))) =
     Alert ''Failed to load project file.'' \<and>
   layers (snd (loadProject cfg1 (init cfg1) (Some (Parsed empty_project)))) = [] \<and>
   snd (loadProject cfg1 (init cfg1) (Some (Parsed empty_project))) \<noteq> init cfg1"
  by code_simp

end
